theory Spec2Isabelle
  imports Main "HOL-Library.Char_ord" "HOL-Library.List_Lexorder" "HOL-Library.Word"
begin

section \<open>The Azure blob storage backend (physical/azure/azure.go)\<close>

text \<open>
  The backend adapts a flat blob container to the key/value interface of the storage
  layer. Go strings are byte strings and are modelled as \<open>string\<close>; \<open>[]byte\<close> is a
  list of 8-bit words. A Go function returning \<open>(x, err)\<close> returns a pair of options
  here (\<open>None\<close> is \<open>nil\<close>), so that a result with both components set, or neither,
  can be told apart from one with exactly one set.

  Calls that leave the process (the blob service, the permit pool) are recorded in a
  trace of \<open>call\<close>s returned next to the result; what the blob service answers is a
  parameter of each operation. The deferred \<open>metrics.MeasureSince\<close>, the logger and the
  \<open>context\<close> argument have no effect on results and are left out.
\<close>

subsection \<open>Constants\<close>

definition MaxBlobSize :: nat where
  "MaxBlobSize = 1024 * 1024 * 4"

definition MaxListResults :: nat where
  "MaxListResults = 5000"

subsection \<open>Errors\<close>

type_synonym ServiceCodeType = string

definition ServiceCodeBlobNotFound :: ServiceCodeType where
  "ServiceCodeBlobNotFound = ''BlobNotFound''"

definition ServiceCodeContainerNotFound :: ServiceCodeType where
  "ServiceCodeContainerNotFound = ''ContainerNotFound''"

text \<open>
  A message is either a literal or a \<open>fmt.Sprintf\<close> of a format with its arguments
  (kept unformatted: \<open>%q\<close> quoting is not modelled).
\<close>

datatype message = Literal string | Sprintf string "string list"

text \<open>
  Error values: \<open>StorageError c\<close> is an \<open>azblob.StorageError\<close> whose \<open>ServiceCode()\<close>
  is \<open>c\<close>; \<open>PlainError\<close> is any other error value that wraps nothing (a transport
  failure, a \<open>fmt.Errorf\<close>); \<open>NumError\<close> is strconv's error for an input;
  \<open>Wrapf m e\<close> is \<open>errwrap.Wrapf(m, e)\<close>.
\<close>

datatype error =
    StorageError ServiceCodeType
  | PlainError string
  | NumError string
  | Wrapf message error

text \<open>
  \<open>errors.As(err, &e)\<close> with \<open>e\<close> an \<open>azblob.StorageError\<close>: the first storage
  error in the chain of wrapped errors, if there is one.
\<close>

fun errors_As :: "error \<Rightarrow> ServiceCodeType option" where
  "errors_As (StorageError c) = Some c"
| "errors_As (PlainError m) = None"
| "errors_As (NumError s) = None"
| "errors_As (Wrapf m e) = errors_As e"

subsection \<open>Data\<close>

type_synonym bytes = "8 word list"

text \<open>
  Modelled from the spec: \<open>physical.Entry\<close> (sdk/physical, not among the sources), by
  the spec's data model a key and a byte sequence.
\<close>

record Entry =
  Key :: string
  Value :: bytes

text \<open>
  \<open>azblob.Marker\<close> holds a \<open>*string\<close>; \<open>NotDone\<close> is true for the zero marker and for
  every marker whose value is not the empty string.
\<close>

type_synonym Marker = "string option"

definition NotDone :: "Marker \<Rightarrow> bool" where
  "NotDone m = (case m of None \<Rightarrow> True | Some v \<Rightarrow> v \<noteq> [])"

text \<open>One page of a listing: the \<open>Name\<close> of each blob item and the next marker.\<close>

record ListBlobsFlatSegmentResponse =
  BlobItems :: "string list"
  NextMarker :: Marker

text \<open>
  The backend: the URL of its container and the capacity handed to
  \<open>physical.NewPermitPool\<close>.
\<close>

record AzureBackend =
  container :: string
  permitPool :: int

datatype call =
    PermitAcquire
  | PermitRelease
  | CallUpload string string bytes
  | CallDownload string string
  | CallDelete string string
  | CallList string Marker string nat
  | CallGetProperties string
  | CallCreate string

text \<open>
  The blob service as the single-call operations see it: what it answers to an upload, a
  download (the body read by \<open>ioutil.ReadAll\<close>: the bytes read and the read error, if
  any) and a delete, given the container URL and the blob name.
\<close>

record remote =
  UploadBufferToBlockBlob :: "string \<Rightarrow> string \<Rightarrow> bytes \<Rightarrow> error option"
  Download :: "string \<Rightarrow> string \<Rightarrow> error + (bytes \<times> error option)"
  DeleteBlob :: "string \<Rightarrow> string \<Rightarrow> error option"

subsection \<open>String helpers of the Go library\<close>

definition HasPrefix :: "string \<Rightarrow> string \<Rightarrow> bool" where
  "HasPrefix s p = (length s \<ge> length p \<and> take (length p) s = p)"

definition TrimPrefix :: "string \<Rightarrow> string \<Rightarrow> string" where
  "TrimPrefix s p = (if HasPrefix s p then drop (length p) s else s)"

text \<open>\<open>strings.Index\<close>: the index of the first instance of \<open>sep\<close> in \<open>s\<close>, or \<open>-1\<close>.\<close>

fun Index :: "string \<Rightarrow> string \<Rightarrow> int" where
  "Index [] sep = (if sep = [] then 0 else -1)"
| "Index (c # cs) sep =
     (if HasPrefix (c # cs) sep then 0
      else (let i = Index cs sep in if i = -1 then -1 else i + 1))"

text \<open>
  Modelled from the spec: \<open>strutil.AppendIfMissing\<close> (sdk/helper/strutil, not among the
  sources): the key is added only if it is not already present in the result.
\<close>

definition AppendIfMissing :: "string list \<Rightarrow> string \<Rightarrow> string list" where
  "AppendIfMissing strs i = (if i \<in> set strs then strs else strs @ [i])"

subsection \<open>Put, Get, Delete\<close>

definition Put :: "remote \<Rightarrow> AzureBackend \<Rightarrow> Entry \<Rightarrow> error option \<times> call list" where
  "Put r a entry =
     (if length (Value entry) \<ge> MaxBlobSize
      then (Some (PlainError ''value is bigger than the current supported limit of 4MBytes''), [])
      else
        (let err = UploadBufferToBlockBlob r (container a) (Key entry) (Value entry)
         in (err, [PermitAcquire, CallUpload (container a) (Key entry) (Value entry),
                   PermitRelease])))"

definition Get :: "remote \<Rightarrow> AzureBackend \<Rightarrow> string \<Rightarrow> (Entry option \<times> error option) \<times> call list" where
  "Get r a key =
     (let calls = [PermitAcquire, CallDownload (container a) key, PermitRelease]
      in case Download r (container a) key of
           Inl err \<Rightarrow>
             (case errors_As err of
                Some code \<Rightarrow>
                  if code = ServiceCodeBlobNotFound then ((None, None), calls)
                  else ((None, Some (Wrapf (Sprintf ''failed to download blob %q: {{err}}'' [key]) err)),
                        calls)
              | None \<Rightarrow> ((None, Some err), calls))
         | Inr (data, err) \<Rightarrow> ((Some \<lparr>Key = key, Value = data\<rparr>, err), calls))"

definition Delete :: "remote \<Rightarrow> AzureBackend \<Rightarrow> string \<Rightarrow> error option \<times> call list" where
  "Delete r a key =
     (let calls = [PermitAcquire, CallDelete (container a) key, PermitRelease]
      in case DeleteBlob r (container a) key of
           Some err \<Rightarrow>
             (case errors_As err of
                Some code \<Rightarrow>
                  if code = ServiceCodeBlobNotFound then (None, calls)
                  else (Some (Wrapf (Sprintf ''failed to delete blob %q: {{err}}'' [key]) err), calls)
              | None \<Rightarrow> (Some err, calls))
         | None \<Rightarrow> (None, calls))"

subsection \<open>List\<close>

text \<open>
  The inner loop of \<open>List\<close> over the blob items of one page: strip the prefix, then
  append the key of a file, or the key of a subdirectory if it is missing.
\<close>

fun List_items :: "string \<Rightarrow> string list \<Rightarrow> string list \<Rightarrow> string list" where
  "List_items prefix keys [] = keys"
| "List_items prefix keys (blobName # rest) =
     (let key = TrimPrefix blobName prefix;
          i = Index key ''/''
      in List_items prefix
           (if i = -1 then keys @ [key] else AppendIfMissing keys (take (nat (i + 1)) key))
           rest)"

text \<open>
  The pagination loop. \<open>pages\<close> are the answers of the blob service to the successive
  \<open>ListBlobsFlatSegment\<close> calls of this run, in order: an error or a page. The loop runs
  while the marker is not done; it need not end, and when the answers run out before it
  does the result is \<open>None\<close>. Each call is recorded with the container, the marker, the
  prefix and the page size it was made with.
\<close>

fun List_loop ::
  "AzureBackend \<Rightarrow> string \<Rightarrow> Marker \<Rightarrow> string list \<Rightarrow> (error + ListBlobsFlatSegmentResponse) list
    \<Rightarrow> ((string list option \<times> error option) \<times> call list) option" where
  "List_loop a prefix marker keys pages =
     (if NotDone marker then
        (case pages of
           [] \<Rightarrow> None
         | p # rest \<Rightarrow>
             (case p of
                Inl err \<Rightarrow> Some ((None, Some err), [CallList (container a) marker prefix MaxListResults])
              | Inr listBlob \<Rightarrow>
                  (case List_loop a prefix (NextMarker listBlob)
                          (List_items prefix keys (BlobItems listBlob)) rest of
                     None \<Rightarrow> None
                   | Some (res, calls) \<Rightarrow>
                       Some (res, CallList (container a) marker prefix MaxListResults # calls))))
      else Some ((Some (sort keys), None), []))"

definition List ::
  "AzureBackend \<Rightarrow> string \<Rightarrow> (error + ListBlobsFlatSegmentResponse) list
    \<Rightarrow> ((string list option \<times> error option) \<times> call list) option" where
  "List a prefix pages =
     (case List_loop a prefix None [] pages of
        None \<Rightarrow> None
      | Some (res, calls) \<Rightarrow> Some (res, [PermitAcquire] @ calls @ [PermitRelease]))"

text \<open>
  The blob names of the pages that the loop reads when it starts at \<open>marker\<close>: it stops
  at the first done marker and at the first error.
\<close>

fun pagesRead :: "Marker \<Rightarrow> (error + ListBlobsFlatSegmentResponse) list \<Rightarrow> string list" where
  "pagesRead marker [] = []"
| "pagesRead marker (p # rest) =
     (if NotDone marker then
        (case p of
           Inl err \<Rightarrow> []
         | Inr listBlob \<Rightarrow> BlobItems listBlob @ pagesRead (NextMarker listBlob) rest)
      else [])"

text \<open>
  A container that holds blobs with the given names and answers a listing in one page:
  the names that begin with the prefix, and a done marker.
\<close>

definition listStore :: "string list \<Rightarrow> string \<Rightarrow> (error + ListBlobsFlatSegmentResponse) list" where
  "listStore names prefix =
     [Inr \<lparr>BlobItems = filter (\<lambda>n. HasPrefix n prefix) names, NextMarker = Some ''''\<rparr>]"

subsection \<open>NewAzureBackend\<close>

text \<open>
  What construction reads from outside: the process environment (\<open>os.Getenv\<close>, the empty
  string for an unset variable), the environment descriptors of go-autorest (only the
  storage endpoint suffix is used), the credential and URL constructors, and the two
  container calls of the blob service.
\<close>

record sys =
  Getenv :: "string \<Rightarrow> string"
  EnvironmentFromURL :: "string \<Rightarrow> error + string"
  EnvironmentFromName :: "string \<Rightarrow> error + string"
  NewSharedKeyCredential :: "string \<Rightarrow> string \<Rightarrow> error option"
  url_Parse :: "string \<Rightarrow> error + string"
  GetProperties :: "string \<Rightarrow> error option"
  Create :: "string \<Rightarrow> error option"

text \<open>Indexing a Go \<open>map[string]string\<close>: the empty string for a missing key.\<close>

definition conf_get :: "(string \<rightharpoonup> string) \<Rightarrow> string \<Rightarrow> string" where
  "conf_get conf k = (case conf k of None \<Rightarrow> [] | Some v \<Rightarrow> v)"

definition apostrophe :: char where
  "apostrophe = CHR 0x27"

definition must_be_set :: "string \<Rightarrow> error" where
  "must_be_set k = PlainError ([apostrophe] @ k @ [apostrophe] @ '' must be set'')"

text \<open>
  \<open>strconv.Atoi\<close> on a 64-bit platform: an optional sign, then one or more decimal
  digits, and a value that fits \<open>int\<close>; anything else is a \<open>NumError\<close> for the input.
\<close>

definition isDigit :: "char \<Rightarrow> bool" where
  "isDigit c = (CHR ''0'' \<le> c \<and> c \<le> CHR ''9'')"

definition digitsValue :: "string \<Rightarrow> int" where
  "digitsValue ds = foldl (\<lambda>n c. n * 10 + (int (of_char c) - 48)) 0 ds"

definition Atoi :: "string \<Rightarrow> error + int" where
  "Atoi s =
     (let neg = (s \<noteq> [] \<and> hd s = CHR ''-'');
          ds = (if s \<noteq> [] \<and> (hd s = CHR ''-'' \<or> hd s = CHR ''+'') then tl s else s)
      in if ds = [] \<or> \<not> list_all isDigit ds then Inl (NumError s)
         else
           (let n = (if neg then - digitsValue ds else digitsValue ds)
            in if n < - (2 ^ 63) \<or> 2 ^ 63 - 1 < n then Inl (NumError s) else Inr n))"

text \<open>The configuration values that lines 46 to 81 of the constructor resolve.\<close>

record ResolvedConfig =
  name :: string
  accountName :: string
  accountKey :: string
  environmentName :: string
  environmentURL :: string

definition resolveConfig :: "sys \<Rightarrow> (string \<rightharpoonup> string) \<Rightarrow> error + ResolvedConfig" where
  "resolveConfig s conf =
     (let name = Getenv s ''AZURE_BLOB_CONTAINER'';
          name = (if name = [] then conf_get conf ''container'' else name)
      in if name = [] then Inl (must_be_set ''container'')
         else
     (let accountName = Getenv s ''AZURE_ACCOUNT_NAME'';
          accountName = (if accountName = [] then conf_get conf ''accountName'' else accountName)
      in if accountName = [] then Inl (must_be_set ''accountName'')
         else
     (let accountKey = Getenv s ''AZURE_ACCOUNT_KEY'';
          accountKey = (if accountKey = [] then conf_get conf ''accountKey'' else accountKey)
      in if accountKey = [] then Inl (must_be_set ''accountKey'')
         else
     (let environmentName = Getenv s ''AZURE_ENVIRONMENT'';
          environmentName =
            (if environmentName = [] then
               (let n = conf_get conf ''environment'' in if n = [] then ''AzurePublicCloud'' else n)
             else environmentName);
          environmentURL = Getenv s ''AZURE_ARM_ENDPOINT'';
          environmentURL =
            (if environmentURL = [] then conf_get conf ''arm_endpoint'' else environmentURL)
      in Inr \<lparr>name = name, accountName = accountName, accountKey = accountKey,
              environmentName = environmentName, environmentURL = environmentURL\<rparr>))))"

text \<open>Lines 83 to 100: the storage endpoint suffix of the environment.\<close>

definition lookupEnvironment :: "sys \<Rightarrow> ResolvedConfig \<Rightarrow> error + string" where
  "lookupEnvironment s c =
     (if environmentURL c \<noteq> [] then
        (case EnvironmentFromURL s (environmentURL c) of
           Inl err \<Rightarrow>
             Inl (Wrapf (Sprintf ''failed to look up Azure environment descriptor for URL %q: {{err}}''
                    [environmentURL c]) err)
         | Inr environment \<Rightarrow> Inr environment)
      else
        (case EnvironmentFromName s (environmentName c) of
           Inl err \<Rightarrow>
             Inl (Wrapf (Sprintf ''failed to look up Azure environment descriptor for name %q: {{err}}''
                    [environmentName c]) err)
         | Inr environment \<Rightarrow> Inr environment))"

text \<open>
  Lines 119 to 133: the probe of the container and its creation. The result is the
  error that ends construction, if any, and the calls made.
\<close>

definition probeContainer :: "sys \<Rightarrow> string \<Rightarrow> string \<Rightarrow> error option \<times> call list" where
  "probeContainer s containerName URL =
     (case GetProperties s URL of
        None \<Rightarrow> (None, [CallGetProperties URL])
      | Some err \<Rightarrow>
          (case errors_As err of
             Some code \<Rightarrow>
               if code = ServiceCodeContainerNotFound then
                 (case Create s URL of
                    Some err' \<Rightarrow>
                      (Some (Wrapf (Sprintf ''failed to create %q container: {{err}}'' [containerName]) err'),
                       [CallGetProperties URL, CallCreate URL])
                  | None \<Rightarrow> (None, [CallGetProperties URL, CallCreate URL]))
               else
                 (Some (Wrapf (Sprintf ''failed to get properties for container %q: {{err}}'' [containerName]) err),
                  [CallGetProperties URL])
           | None \<Rightarrow> (None, [CallGetProperties URL])))"

text \<open>Lines 135 to 145: the optional \<open>max_parallel\<close>, zero when it is not given.\<close>

definition parseMaxParallel :: "(string \<rightharpoonup> string) \<Rightarrow> error + int" where
  "parseMaxParallel conf =
     (case conf ''max_parallel'' of
        None \<Rightarrow> Inr 0
      | Some maxParStr \<Rightarrow>
          (case Atoi maxParStr of
             Inl err \<Rightarrow> Inl (Wrapf (Literal ''failed parsing max_parallel parameter: {{err}}'') err)
           | Inr maxParInt \<Rightarrow> Inr maxParInt))"

definition NewAzureBackend ::
  "sys \<Rightarrow> (string \<rightharpoonup> string) \<Rightarrow> (AzureBackend option \<times> error option) \<times> call list" where
  "NewAzureBackend s conf =
     (case resolveConfig s conf of
        Inl err \<Rightarrow> ((None, Some err), [])
      | Inr c \<Rightarrow>
     (case lookupEnvironment s c of
        Inl err \<Rightarrow> ((None, Some err), [])
      | Inr suffix \<Rightarrow>
     (case NewSharedKeyCredential s (accountName c) (accountKey c) of
        Some err \<Rightarrow> ((None, Some (Wrapf (Literal ''failed to create Azure client: {{err}}'') err)), [])
      | None \<Rightarrow>
     (case url_Parse s (''https://'' @ accountName c @ ''.blob.'' @ suffix @ ''/'' @ name c) of
        Inl err \<Rightarrow> ((None, Some (Wrapf (Literal ''failed to create Azure client: {{err}}'') err)), [])
      | Inr URL \<Rightarrow>
     (case probeContainer s (name c) URL of
        (Some err, calls) \<Rightarrow> ((None, Some err), calls)
      | (None, calls) \<Rightarrow>
     (case parseMaxParallel conf of
        Inl err \<Rightarrow> ((None, Some err), calls)
      | Inr maxParInt \<Rightarrow>
          ((Some \<lparr>container = URL, permitPool = maxParInt\<rparr>, None), calls)))))))"

subsection \<open>Concrete inputs\<close>

text \<open>A backend bound to a container, and a blob service that holds nothing.\<close>

definition backend0 :: AzureBackend where
  "backend0 = \<lparr>container = ''https://acct.blob.core.windows.net/vault'', permitPool = 0\<rparr>"

definition remoteEmpty :: remote where
  "remoteEmpty =
     \<lparr>UploadBufferToBlockBlob = (\<lambda>c k v. None),
      Download = (\<lambda>c k. Inl (StorageError ''BlobNotFound'')),
      DeleteBlob = (\<lambda>c k. Some (StorageError ''BlobNotFound''))\<rparr>"


definition remoteBrokenBody :: remote where
  "remoteBrokenBody =
     \<lparr>UploadBufferToBlockBlob = (\<lambda>c k v. None),
      Download = (\<lambda>c k. Inr ([1, 2], Some (PlainError ''unexpected EOF''))),
      DeleteBlob = (\<lambda>c k. None)\<rparr>"

text \<open>
  A process with no environment variable set, the public cloud known by name, and a
  blob service whose container exists; a configuration that names container, account
  and key. Variants: the container variable set in the environment, a probe that times
  out, and a \<open>max_parallel\<close> that is no number.
\<close>

definition sys0 :: sys where
  "sys0 =
     \<lparr>Getenv = (\<lambda>k. []),
      EnvironmentFromURL = (\<lambda>u. Inl (PlainError ''no such host'')),
      EnvironmentFromName =
        (\<lambda>n. if n = ''AzurePublicCloud'' then Inr ''core.windows.net''
              else Inl (PlainError ''no cloud environment matching the name'')),
      NewSharedKeyCredential = (\<lambda>n k. None),
      url_Parse = (\<lambda>u. Inr u),
      GetProperties = (\<lambda>u. None),
      Create = (\<lambda>u. None)\<rparr>"

definition conf0 :: "string \<rightharpoonup> string" where
  "conf0 = [''container'' \<mapsto> ''vault'', ''accountName'' \<mapsto> ''acct'', ''accountKey'' \<mapsto> ''a2V5'']"

definition sysEnv :: sys where
  "sysEnv = sys0\<lparr>Getenv := (\<lambda>k. if k = ''AZURE_BLOB_CONTAINER'' then ''from-env'' else [])\<rparr>"

definition sysTimeout :: sys where
  "sysTimeout = sys0\<lparr>GetProperties := (\<lambda>u. Some (PlainError ''context deadline exceeded''))\<rparr>"


text \<open>
  A listing of the prefix \<open>p/\<close> in two pages, and one whose second page request fails.
\<close>

definition twoPages :: "(error + ListBlobsFlatSegmentResponse) list" where
  "twoPages =
     [Inr \<lparr>BlobItems = [''p/x'', ''p/d/1'', ''p/d/2''], NextMarker = Some ''m1''\<rparr>,
      Inr \<lparr>BlobItems = [''p/b''], NextMarker = Some ''''\<rparr>]"

definition failingPages :: "(error + ListBlobsFlatSegmentResponse) list" where
  "failingPages =
     [Inr \<lparr>BlobItems = [''p/x'', ''p/d/1''], NextMarker = Some ''m1''\<rparr>,
      Inl (StorageError ''ServerBusy'')]"

subsection \<open>Notions of the specification\<close>

text \<open>
  The leaf keys among the names of a listing: the remainders, after the prefix is
  stripped, that contain no delimiter.
\<close>

definition leafKeys :: "string \<Rightarrow> string list \<Rightarrow> string list" where
  "leafKeys prefix names =
     filter (\<lambda>k. CHR ''/'' \<notin> set k) (map (\<lambda>n. TrimPrefix n prefix) names)"

text \<open>
  Layered lookup with the environment first: the value of the environment variable
  unless it is empty, else the value of the configuration key (empty when missing).
\<close>

definition envThenConf :: "sys \<Rightarrow> (string \<rightharpoonup> string) \<Rightarrow> string \<Rightarrow> string \<Rightarrow> string" where
  "envThenConf s conf var k = (if Getenv s var \<noteq> [] then Getenv s var else conf_get conf k)"

section \<open>Properties\<close>

subsection \<open>Not found is not an error\<close>

text \<open>
  C2. When the blob service answers a download or a delete with an error whose service
  code is blob-not-found, \<open>Get\<close> returns \<open>(nil, nil)\<close> and \<open>Delete\<close> returns \<open>nil\<close>,
  for every key.
\<close>

theorem Get_Delete_not_found:
  "errors_As err = Some ServiceCodeBlobNotFound \<Longrightarrow>
     (Download r (container a) key = Inl err \<longrightarrow> fst (Get r a key) = (None, None)) \<and>
     (DeleteBlob r (container a) key = Some err \<longrightarrow> fst (Delete r a key) = None)"
  by (simp add: Get_def Delete_def)

theorem Get_Delete_not_found_witness:
  "errors_As (StorageError ''BlobNotFound'') = Some ServiceCodeBlobNotFound \<and>
   Download remoteEmpty (container backend0) ''k'' = Inl (StorageError ''BlobNotFound'') \<and>
   DeleteBlob remoteEmpty (container backend0) ''k'' = Some (StorageError ''BlobNotFound'') \<and>
   fst (Get remoteEmpty backend0 ''k'') = (None, None) \<and>
   fst (Delete remoteEmpty backend0 ''k'') = None"
  using Get_Delete_not_found [of "StorageError ''BlobNotFound''" remoteEmpty backend0 "''k''"]
  by (simp add: remoteEmpty_def ServiceCodeBlobNotFound_def)

subsection \<open>The size limit of Put\<close>

text \<open>
  C3. For an entry whose value has \<open>MaxBlobSize\<close> bytes or more, \<open>Put\<close> returns the
  size-limit error and makes no call at all: no upload, and no permit is acquired. For a
  shorter value the size check passes: a permit is acquired, the upload is made, its
  answer is returned and the permit is released.
\<close>

theorem Put_size_limit:
  "(MaxBlobSize \<le> length (Value entry) \<longrightarrow>
      Put r a entry =
        (Some (PlainError ''value is bigger than the current supported limit of 4MBytes''), [])) \<and>
   (length (Value entry) < MaxBlobSize \<longrightarrow>
      Put r a entry =
        (UploadBufferToBlockBlob r (container a) (Key entry) (Value entry),
         [PermitAcquire, CallUpload (container a) (Key entry) (Value entry), PermitRelease]))"
  by (simp add: Put_def)

theorem Put_size_limit_witness:
  "MaxBlobSize \<le> length (Value \<lparr>Key = ''k'', Value = replicate MaxBlobSize 0\<rparr>) \<and>
   Put remoteEmpty backend0 \<lparr>Key = ''k'', Value = replicate MaxBlobSize 0\<rparr> =
     (Some (PlainError ''value is bigger than the current supported limit of 4MBytes''), []) \<and>
   length (Value \<lparr>Key = ''k'', Value = [1, 2, 3]\<rparr>) < MaxBlobSize \<and>
   Put remoteEmpty backend0 \<lparr>Key = ''k'', Value = [1, 2, 3]\<rparr> =
     (None, [PermitAcquire, CallUpload (container backend0) ''k'' [1, 2, 3], PermitRelease])"
proof -
  have big: "MaxBlobSize \<le> length (Value \<lparr>Key = ''k'', Value = replicate MaxBlobSize 0\<rparr>)"
    by simp
  have small: "length (Value \<lparr>Key = ''k'', Value = [1, 2, 3]\<rparr>) < MaxBlobSize"
    by (simp add: MaxBlobSize_def)
  from big small
    Put_size_limit [of "\<lparr>Key = ''k'', Value = replicate MaxBlobSize 0\<rparr>" remoteEmpty backend0]
    Put_size_limit [of "\<lparr>Key = ''k'', Value = [1, 2, 3]\<rparr>" remoteEmpty backend0]
  show ?thesis by (simp add: remoteEmpty_def)
qed

subsection \<open>A body that fails while it is read\<close>

text \<open>
  C10. When the download succeeds and reading the body fails, \<open>Get\<close> returns an entry
  with the requested key and the bytes read so far, together with the read error: both
  components of the result are set.
\<close>

theorem Get_read_failure:
  "Download r (container a) key = Inr (data, Some e) \<Longrightarrow>
     fst (Get r a key) = (Some \<lparr>Key = key, Value = data\<rparr>, Some e)"
  by (simp add: Get_def)

theorem Get_read_failure_witness:
  "Download remoteBrokenBody (container backend0) ''k'' = Inr ([1, 2], Some (PlainError ''unexpected EOF'')) \<and>
   fst (Get remoteBrokenBody backend0 ''k'') =
     (Some \<lparr>Key = ''k'', Value = [1, 2]\<rparr>, Some (PlainError ''unexpected EOF''))"
  using Get_read_failure [of remoteBrokenBody backend0 "''k''" "[1, 2]" "PlainError ''unexpected EOF''"]
  by (simp add: remoteBrokenBody_def)

subsection \<open>Key translation in List\<close>

lemma TrimPrefix_append: "TrimPrefix (p @ s) p = s"
  by (simp add: TrimPrefix_def HasPrefix_def)

lemma Index_slash_none: "CHR ''/'' \<notin> set key \<Longrightarrow> Index key ''/'' = -1"
  by (induction key) (auto simp: HasPrefix_def Let_def)

lemma Index_slash_some:
  "CHR ''/'' \<in> set key \<Longrightarrow>
     Index key ''/'' = int (length (takeWhile (\<lambda>c. c \<noteq> CHR ''/'') key))"
  by (induction key) (auto simp: HasPrefix_def Let_def)

lemma take_first_slash:
  "CHR ''/'' \<in> set key \<Longrightarrow>
     take (Suc (length (takeWhile (\<lambda>c. c \<noteq> CHR ''/'') key))) key =
       takeWhile (\<lambda>c. c \<noteq> CHR ''/'') key @ ''/''"
  by (induction key) auto

lemma List_items_step:
  "List_items prefix keys (n # rest) =
     List_items prefix
       (let key = TrimPrefix n prefix in
        if CHR ''/'' \<notin> set key then keys @ [key]
        else (let dir = takeWhile (\<lambda>c. c \<noteq> CHR ''/'') key @ ''/'' in
              if dir \<in> set keys then keys else keys @ [dir]))
       rest"
  by (simp add: Let_def Index_slash_none Index_slash_some take_first_slash
      AppendIfMissing_def nat_add_distrib)

lemma List_items_append:
  "List_items prefix keys (xs @ ys) = List_items prefix (List_items prefix keys xs) ys"
  by (induction xs arbitrary: keys) (simp_all add: Let_def)

text \<open>
  A run of the loop that returns keys has applied the inner loop to the names of all
  pages it read, in order, and sorted the result; it returns no error.
\<close>

lemma List_loop_keys:
  "List_loop a prefix marker keys pages = Some ((Some ks, e), calls) \<Longrightarrow>
     ks = sort (List_items prefix keys (pagesRead marker pages)) \<and> e = None"
proof (induction pages arbitrary: marker keys calls)
  case Nil
  then show ?case by (auto split: if_splits)
next
  case (Cons p pages)
  show ?case
  proof (cases "NotDone marker")
    case False
    with Cons.prems show ?thesis by auto
  next
    case True
    show ?thesis
    proof (cases p)
      case (Inl err)
      with True Cons.prems show ?thesis by simp
    next
      case (Inr listBlob)
      with True Cons.prems obtain calls' where
        "List_loop a prefix (NextMarker listBlob) (List_items prefix keys (BlobItems listBlob)) pages
           = Some ((Some ks, e), calls')"
        by (auto split: option.splits)
      from Cons.IH [OF this] Inr True show ?thesis
        by (simp add: List_items_append)
    qed
  qed
qed

lemma List_keys:
  assumes "List a prefix pages = Some ((Some ks, e), calls)"
  shows "ks = sort (List_items prefix [] (pagesRead None pages))" and "e = None"
proof -
  from assms obtain calls' where "List_loop a prefix None [] pages = Some ((Some ks, e), calls')"
    by (auto simp: List_def split: option.splits)
  from List_loop_keys [OF this]
  show "ks = sort (List_items prefix [] (pagesRead None pages))" and "e = None"
    by simp_all
qed

text \<open>
  A run whose pages each ask for more, up to a page that carries a done marker, returns:
  the loop ends there, whatever answers would follow.
\<close>

lemma List_loop_completes:
  "NotDone marker \<Longrightarrow> \<forall>p \<in> set pre. NotDone (NextMarker p) \<Longrightarrow>
   \<not> NotDone (NextMarker final) \<Longrightarrow>
   List_loop a prefix marker keys (map Inr pre @ Inr final # unread) =
     Some ((Some (sort (List_items prefix keys (concat (map BlobItems (pre @ [final]))))), None),
           map (\<lambda>m. CallList (container a) m prefix MaxListResults) (marker # map NextMarker pre))"
  by (induction pre arbitrary: marker keys) (simp_all add: List_items_append)

lemma List_completes:
  "\<forall>p \<in> set pre. NotDone (NextMarker p) \<Longrightarrow> \<not> NotDone (NextMarker final) \<Longrightarrow>
   map_option fst (List a prefix (map Inr pre @ Inr final # unread)) =
     Some (Some (sort (List_items prefix [] (concat (map BlobItems (pre @ [final]))))), None)"
  by (simp add: List_def List_loop_completes NotDone_def del: List_loop.simps)

text \<open>
  C1. For every object name of the pages read by \<open>List\<close>, the prefix is stripped; a
  remainder without \<open>/\<close> is appended unchanged, and a remainder with a \<open>/\<close> is cut just
  after its first \<open>/\<close> and added only if it is not among the keys yet. When the
  pagination ends, \<open>List\<close> returns the sorted outcome of these steps over the names of
  all pages, and whatever keys it returns are that outcome over the names read. With the
  keys \<open>a\<close>, \<open>b/c\<close>, \<open>b/d\<close>, \<open>e/f/g\<close> stored, listing the empty prefix gives
  \<open>a\<close>, \<open>b/\<close>, \<open>e/\<close> and listing \<open>b/\<close> gives \<open>c\<close>, \<open>d\<close>.
\<close>

theorem List_key_translation:
  "List_items prefix keys (blobName # rest) =
     List_items prefix
       (let key = TrimPrefix blobName prefix in
        if CHR ''/'' \<notin> set key then keys @ [key]
        else (let dir = takeWhile (\<lambda>c. c \<noteq> CHR ''/'') key @ ''/'' in
              if dir \<in> set keys then keys else keys @ [dir]))
       rest \<and>
   TrimPrefix (prefix @ remainder) prefix = remainder \<and>
   ((\<forall>p \<in> set pre. NotDone (NextMarker p)) \<and> \<not> NotDone (NextMarker final) \<longrightarrow>
      map_option fst (List a prefix (map Inr pre @ Inr final # unread)) =
        Some (Some (sort (List_items prefix [] (concat (map BlobItems (pre @ [final]))))), None)) \<and>
   (List a prefix pages = Some ((Some ks, e), calls) \<longrightarrow>
      ks = sort (List_items prefix [] (pagesRead None pages))) \<and>
   map_option fst (List a '''' (listStore [''a'', ''b/c'', ''b/d'', ''e/f/g''] '''')) =
     Some (Some [''a'', ''b/'', ''e/''], None) \<and>
   map_option fst (List a ''b/'' (listStore [''a'', ''b/c'', ''b/d'', ''e/f/g''] ''b/'')) =
     Some (Some [''c'', ''d''], None)"
proof -
  have scenario1:
    "map_option fst (List a '''' (listStore [''a'', ''b/c'', ''b/d'', ''e/f/g''] '''')) =
       Some (Some [''a'', ''b/'', ''e/''], None)"
    by (simp add: List_def listStore_def NotDone_def HasPrefix_def TrimPrefix_def
        AppendIfMissing_def)
  have scenario2:
    "map_option fst (List a ''b/'' (listStore [''a'', ''b/c'', ''b/d'', ''e/f/g''] ''b/'')) =
       Some (Some [''c'', ''d''], None)"
    by (simp add: List_def listStore_def NotDone_def HasPrefix_def TrimPrefix_def
        AppendIfMissing_def)
  show ?thesis
    using List_items_step [of prefix keys blobName rest] TrimPrefix_append [of prefix remainder]
      List_completes [of pre final a prefix unread]
      List_keys(1) [of a prefix pages ks e calls] scenario1 scenario2
    by blast
qed

theorem List_key_translation_witness:
  "NotDone (NextMarker \<lparr>BlobItems = [''p/x'', ''p/d/1'', ''p/d/2''], NextMarker = Some ''m1''\<rparr>) \<and>
   \<not> NotDone (NextMarker \<lparr>BlobItems = [''p/b''], NextMarker = Some ''''\<rparr>) \<and>
   List backend0 ''p/'' twoPages =
     Some ((Some [''b'', ''d/'', ''x''], None),
           [PermitAcquire,
            CallList (container backend0) None ''p/'' MaxListResults,
            CallList (container backend0) (Some ''m1'') ''p/'' MaxListResults,
            PermitRelease]) \<and>
   [''b'', ''d/'', ''x''] = sort (List_items ''p/'' [] (pagesRead None twoPages)) \<and>
   map_option fst (List backend0 ''p/'' twoPages) =
     Some (Some (sort (List_items ''p/'' [] [''p/x'', ''p/d/1'', ''p/d/2'', ''p/b''])), None)"
proof -
  have run:
    "List backend0 ''p/'' twoPages =
       Some ((Some [''b'', ''d/'', ''x''], None),
             [PermitAcquire,
              CallList (container backend0) None ''p/'' MaxListResults,
              CallList (container backend0) (Some ''m1'') ''p/'' MaxListResults,
              PermitRelease])"
    by (simp add: List_def twoPages_def NotDone_def HasPrefix_def TrimPrefix_def
        AppendIfMissing_def)
  have asks: "NotDone (NextMarker \<lparr>BlobItems = [''p/x'', ''p/d/1'', ''p/d/2''], NextMarker = Some ''m1''\<rparr>)"
    and ends: "\<not> NotDone (NextMarker \<lparr>BlobItems = [''p/b''], NextMarker = Some ''''\<rparr>)"
    by (simp_all add: NotDone_def)
  have pages: "twoPages =
      map Inr [\<lparr>BlobItems = [''p/x'', ''p/d/1'', ''p/d/2''], NextMarker = Some ''m1''\<rparr>] @
        Inr \<lparr>BlobItems = [''p/b''], NextMarker = Some ''''\<rparr> # []"
    by (simp add: twoPages_def)
  note inst = List_key_translation [where prefix = "''p/''" and a = backend0
      and pre = "[\<lparr>BlobItems = [''p/x'', ''p/d/1'', ''p/d/2''], NextMarker = Some ''m1''\<rparr>]"
      and final = "\<lparr>BlobItems = [''p/b''], NextMarker = Some ''''\<rparr>" and unread = "[]"
      and pages = twoPages and ks = "[''b'', ''d/'', ''x'']" and e = None
      and calls = "[PermitAcquire,
        CallList (container backend0) None ''p/'' MaxListResults,
        CallList (container backend0) (Some ''m1'') ''p/'' MaxListResults,
        PermitRelease]" and keys = "[]" and blobName = "''p/x''" and rest = "[]"
      and remainder = "''x''"]
  from inst run
  have keys: "[''b'', ''d/'', ''x''] = sort (List_items ''p/'' [] (pagesRead None twoPages))"
    by blast
  have chain: "\<forall>p \<in> set [\<lparr>BlobItems = [''p/x'', ''p/d/1'', ''p/d/2''], NextMarker = Some ''m1''\<rparr>].
      NotDone (NextMarker p)"
    using asks by simp
  have names: "concat (map BlobItems
      ([\<lparr>BlobItems = [''p/x'', ''p/d/1'', ''p/d/2''], NextMarker = Some ''m1''\<rparr>] @
       [\<lparr>BlobItems = [''p/b''], NextMarker = Some ''''\<rparr>])) =
      [''p/x'', ''p/d/1'', ''p/d/2'', ''p/b'']"
    by simp
  from inst chain ends
  have "map_option fst (List backend0 ''p/''
      (map Inr [\<lparr>BlobItems = [''p/x'', ''p/d/1'', ''p/d/2''], NextMarker = Some ''m1''\<rparr>] @
        Inr \<lparr>BlobItems = [''p/b''], NextMarker = Some ''''\<rparr> # [])) =
     Some (Some (sort (List_items ''p/'' []
       (concat (map BlobItems
         ([\<lparr>BlobItems = [''p/x'', ''p/d/1'', ''p/d/2''], NextMarker = Some ''m1''\<rparr>] @
          [\<lparr>BlobItems = [''p/b''], NextMarker = Some ''''\<rparr>]))))), None)"
    by blast
  then have "map_option fst (List backend0 ''p/'' twoPages) =
     Some (Some (sort (List_items ''p/'' [] [''p/x'', ''p/d/1'', ''p/d/2'', ''p/b''])), None)"
    unfolding names pages [symmetric] .
  with run asks ends keys show ?thesis by blast
qed

subsection \<open>Order and duplicates of the keys returned by List\<close>

lemma distinct_List_items:
  "distinct (List_items prefix keys names) \<longleftrightarrow> distinct (keys @ leafKeys prefix names)"
proof (induction names arbitrary: keys)
  case Nil
  then show ?case by (simp add: leafKeys_def)
next
  case (Cons n names)
  let ?key = "TrimPrefix n prefix"
  show ?case
  proof (cases "CHR ''/'' \<in> set ?key")
    case False
    then show ?thesis
      using Cons.IH [of "keys @ [?key]"]
      by (simp add: List_items_step leafKeys_def del: List_items.simps)
  next
    case True
    let ?dir = "takeWhile (\<lambda>c. c \<noteq> CHR ''/'') ?key @ ''/''"
    have notleaf: "?dir \<notin> set (leafKeys prefix names)"
      by (auto simp: leafKeys_def)
    show ?thesis
    proof (cases "?dir \<in> set keys")
      case True
      with \<open>CHR ''/'' \<in> set ?key\<close> show ?thesis
        using Cons.IH [of keys]
        by (simp add: List_items_step leafKeys_def Let_def del: List_items.simps)
    next
      case False
      with \<open>CHR ''/'' \<in> set ?key\<close> notleaf show ?thesis
        using Cons.IH [of "keys @ [?dir]"]
        by (simp add: List_items_step leafKeys_def Let_def del: List_items.simps)
    qed
  qed
qed

lemma TrimPrefix_inj:
  assumes "HasPrefix n prefix" and "HasPrefix m prefix"
    and "TrimPrefix n prefix = TrimPrefix m prefix"
  shows "n = m"
proof -
  from assms(1) have "n = prefix @ drop (length prefix) n"
    by (metis HasPrefix_def append_take_drop_id)
  moreover from assms(2) have "m = prefix @ drop (length prefix) m"
    by (metis HasPrefix_def append_take_drop_id)
  moreover from assms have "drop (length prefix) n = drop (length prefix) m"
    by (simp add: TrimPrefix_def)
  ultimately show ?thesis by metis
qed

lemma distinct_leafKeys:
  assumes "distinct names" and "\<forall>n \<in> set names. HasPrefix n prefix"
  shows "distinct (leafKeys prefix names)"
proof -
  have "inj_on (\<lambda>n. TrimPrefix n prefix) (set names)"
    using assms(2) by (auto intro!: inj_onI dest: TrimPrefix_inj)
  with assms(1) have "distinct (map (\<lambda>n. TrimPrefix n prefix) names)"
    by (simp add: distinct_map)
  then show ?thesis
    unfolding leafKeys_def by (rule distinct_filter)
qed

text \<open>
  The keys of a successful \<open>List\<close>, whatever the pages: they are sorted, and since
  directory keys are added only if missing while leaf keys are appended as they come,
  they are free of duplicates exactly when the leaf keys of the names read are.
\<close>

lemma List_sorted_distinct_iff:
  assumes "List a prefix pages = Some ((Some ks, e), calls)"
  shows "sorted ks" and "distinct ks \<longleftrightarrow> distinct (leafKeys prefix (pagesRead None pages))"
proof -
  from List_keys(1) [OF assms]
  have ks: "ks = sort (List_items prefix [] (pagesRead None pages))" .
  show "sorted ks"
    unfolding ks by simp
  show "distinct ks \<longleftrightarrow> distinct (leafKeys prefix (pagesRead None pages))"
    unfolding ks by (simp add: distinct_List_items)
qed

lemma List_sorted_distinct:
  assumes "distinct (pagesRead None pages)"
    and "\<forall>n \<in> set (pagesRead None pages). HasPrefix n prefix"
    and "List a prefix pages = Some ((Some ks, e), calls)"
  shows "sorted ks \<and> distinct ks"
  using List_sorted_distinct_iff [OF assms(3)] distinct_leafKeys [OF assms(1,2)]
  by simp

lemma List_result:
  assumes "map_option fst (List a prefix pages) = Some (Some ks, None)"
  shows "\<exists>calls. List a prefix pages = Some ((Some ks, None), calls)"
  using assms by (cases "List a prefix pages") auto

lemma pagesRead_listStore:
  "pagesRead None (listStore names prefix) = filter (\<lambda>n. HasPrefix n prefix) names"
  by (simp add: listStore_def NotDone_def)

lemma List_listStore:
  "\<exists>ks calls. List a prefix (listStore names prefix) = Some ((Some ks, None), calls)"
proof -
  have "listStore names prefix =
      map Inr [] @
        Inr \<lparr>BlobItems = filter (\<lambda>n. HasPrefix n prefix) names, NextMarker = Some ''''\<rparr> # []"
    by (simp add: listStore_def)
  moreover have "\<not> NotDone
      (NextMarker \<lparr>BlobItems = filter (\<lambda>n. HasPrefix n prefix) names, NextMarker = Some ''''\<rparr>)"
    by (simp add: NotDone_def)
  ultimately show ?thesis
    using List_completes [of "[]"
        "\<lparr>BlobItems = filter (\<lambda>n. HasPrefix n prefix) names, NextMarker = Some ''''\<rparr>"
        a prefix "[]"]
      List_result [of a prefix "listStore names prefix"]
    by auto
qed

text \<open>
  C4. The blob service lists each blob of the container once, and for a prefix only blobs
  whose names begin with it: the names of the pages read are pairwise distinct and
  carry the prefix. For every prefix and every such sequence of pages, the key list of a
  successful \<open>List\<close> is sorted and has no duplicate; when the pagination ends with a
  done marker \<open>List\<close> does return such a list; and so it does for the listing of every
  container whose blob names are distinct.
\<close>

theorem List_sorted_no_duplicates:
  "(distinct (pagesRead None pages) \<and> (\<forall>n \<in> set (pagesRead None pages). HasPrefix n prefix) \<and>
    List a prefix pages = Some ((Some ks, e), calls)
      \<longrightarrow> sorted ks \<and> distinct ks) \<and>
   (distinct (pagesRead None pages) \<and> (\<forall>n \<in> set (pagesRead None pages). HasPrefix n prefix) \<and>
    pages = map Inr pre @ Inr final # unread \<and>
    (\<forall>p \<in> set pre. NotDone (NextMarker p)) \<and> \<not> NotDone (NextMarker final)
      \<longrightarrow> (\<exists>ks' calls'. List a prefix pages = Some ((Some ks', None), calls') \<and>
             sorted ks' \<and> distinct ks')) \<and>
   (distinct names
      \<longrightarrow> (\<exists>ks' calls'. List a prefix (listStore names prefix) = Some ((Some ks', None), calls') \<and>
             sorted ks' \<and> distinct ks'))"
proof -
  have any: "sorted ks \<and> distinct ks"
    if "distinct (pagesRead None pages)" "\<forall>n \<in> set (pagesRead None pages). HasPrefix n prefix"
      "List a prefix pages = Some ((Some ks, e), calls)"
    using that by (rule List_sorted_distinct)
  have ended: "\<exists>ks' calls'. List a prefix pages = Some ((Some ks', None), calls') \<and>
      sorted ks' \<and> distinct ks'"
    if d: "distinct (pagesRead None pages)"
      and h: "\<forall>n \<in> set (pagesRead None pages). HasPrefix n prefix"
      and pages: "pages = map Inr pre @ Inr final # unread"
      and chain: "\<forall>p \<in> set pre. NotDone (NextMarker p)" and fin: "\<not> NotDone (NextMarker final)"
  proof -
    from List_completes [OF chain fin, of a prefix unread] pages
    obtain ks' where "map_option fst (List a prefix pages) = Some (Some ks', None)"
      by simp
    from List_result [OF this] obtain calls'
      where run: "List a prefix pages = Some ((Some ks', None), calls')"
      by blast
    from List_sorted_distinct [OF d h run] run show ?thesis by blast
  qed
  have store: "\<exists>ks' calls'. List a prefix (listStore names prefix) = Some ((Some ks', None), calls') \<and>
      sorted ks' \<and> distinct ks'"
    if "distinct names"
  proof -
    from List_listStore obtain ks' calls'
      where run: "List a prefix (listStore names prefix) = Some ((Some ks', None), calls')"
      by blast
    from that have d: "distinct (pagesRead None (listStore names prefix))"
      by (simp add: pagesRead_listStore)
    have h: "\<forall>n \<in> set (pagesRead None (listStore names prefix)). HasPrefix n prefix"
      by (simp add: pagesRead_listStore)
    from List_sorted_distinct [OF d h run] run show ?thesis by blast
  qed
  from any ended store show ?thesis by blast
qed

theorem List_sorted_no_duplicates_witness:
  "pagesRead None twoPages = [''p/x'', ''p/d/1'', ''p/d/2'', ''p/b''] \<and>
   distinct (pagesRead None twoPages) \<and>
   list_all (\<lambda>n. HasPrefix n ''p/'') (pagesRead None twoPages) \<and>
   List backend0 ''p/'' twoPages =
     Some ((Some [''b'', ''d/'', ''x''], None),
           [PermitAcquire,
            CallList (container backend0) None ''p/'' MaxListResults,
            CallList (container backend0) (Some ''m1'') ''p/'' MaxListResults,
            PermitRelease]) \<and>
   sorted [''b'', ''d/'', ''x''] \<and> distinct [''b'', ''d/'', ''x''] \<and>
   distinct [''a'', ''b/c'', ''b/d'', ''e/f/g''] \<and>
   (\<exists>ks' calls'.
      List backend0 ''b/'' (listStore [''a'', ''b/c'', ''b/d'', ''e/f/g''] ''b/'') =
        Some ((Some ks', None), calls') \<and> sorted ks' \<and> distinct ks')"
proof -
  have run:
    "List backend0 ''p/'' twoPages =
       Some ((Some [''b'', ''d/'', ''x''], None),
             [PermitAcquire,
              CallList (container backend0) None ''p/'' MaxListResults,
              CallList (container backend0) (Some ''m1'') ''p/'' MaxListResults,
              PermitRelease])"
    by (simp add: List_def twoPages_def NotDone_def HasPrefix_def TrimPrefix_def
        AppendIfMissing_def)
  have read: "pagesRead None twoPages = [''p/x'', ''p/d/1'', ''p/d/2'', ''p/b'']"
    by (simp add: twoPages_def NotDone_def)
  have d: "distinct (pagesRead None twoPages)"
    unfolding read by simp
  have h: "\<forall>n \<in> set (pagesRead None twoPages). HasPrefix n ''p/''"
    unfolding read by (simp add: HasPrefix_def)
  have names: "distinct [''a'', ''b/c'', ''b/d'', ''e/f/g'']"
    by simp
  note inst = List_sorted_no_duplicates [where pages = twoPages and prefix = "''p/''"
      and a = backend0 and ks = "[''b'', ''d/'', ''x'']" and e = None
      and calls = "[PermitAcquire,
        CallList (container backend0) None ''p/'' MaxListResults,
        CallList (container backend0) (Some ''m1'') ''p/'' MaxListResults,
        PermitRelease]"]
  from inst d h run
  have keys: "sorted [''b'', ''d/'', ''x''] \<and> distinct [''b'', ''d/'', ''x'']"
    by blast
  from List_sorted_no_duplicates [where names = "[''a'', ''b/c'', ''b/d'', ''e/f/g'']"
      and prefix = "''b/''" and a = backend0] names
  have store: "\<exists>ks' calls'.
      List backend0 ''b/'' (listStore [''a'', ''b/c'', ''b/d'', ''e/f/g''] ''b/'') =
        Some ((Some ks', None), calls') \<and> sorted ks' \<and> distinct ks'"
    by blast
  from h have "list_all (\<lambda>n. HasPrefix n ''p/'') (pagesRead None twoPages)"
    by (simp add: list_all_iff)
  with read d run keys names store show ?thesis by blast
qed

subsection \<open>A page request that fails\<close>

lemma List_loop_error_nil:
  "List_loop a prefix marker keys pages = Some ((ks, Some e), calls) \<Longrightarrow> ks = None"
proof (induction pages arbitrary: marker keys calls)
  case Nil
  then show ?case by (auto split: if_splits)
next
  case (Cons p pages)
  show ?case
  proof (cases "NotDone marker")
    case False
    with Cons.prems show ?thesis by auto
  next
    case True
    show ?thesis
    proof (cases p)
      case (Inl err)
      with True Cons.prems show ?thesis by auto
    next
      case (Inr listBlob)
      with True Cons.prems obtain calls' where
        "List_loop a prefix (NextMarker listBlob) (List_items prefix keys (BlobItems listBlob)) pages
           = Some ((ks, Some e), calls')"
        by (auto split: option.splits)
      from Cons.IH [OF this] show ?thesis .
    qed
  qed
qed

lemma List_loop_page_error:
  "NotDone marker \<Longrightarrow> \<forall>p \<in> set pre. NotDone (NextMarker p) \<Longrightarrow>
   List_loop a prefix marker keys (map Inr pre @ Inl err # rest) =
     Some ((None, Some err),
           map (\<lambda>m. CallList (container a) m prefix MaxListResults) (marker # map NextMarker pre))"
  by (induction pre arbitrary: marker keys) simp_all

lemma List_page_error:
  "\<forall>p \<in> set pre. NotDone (NextMarker p) \<Longrightarrow>
   map_option fst (List a prefix (map Inr pre @ Inl err # rest)) = Some (None, Some err)"
  by (simp add: List_def List_loop_page_error NotDone_def del: List_loop.simps)

text \<open>
  C9. When a page request fails after any number of pages that each asked for more,
  \<open>List\<close> returns the error of that request and a nil key list; and whenever \<open>List\<close>
  returns an error, the key list it returns is nil.
\<close>

theorem List_page_failure:
  "((\<forall>p \<in> set pre. NotDone (NextMarker p)) \<longrightarrow>
      map_option fst (List a prefix (map Inr pre @ Inl err # rest)) = Some (None, Some err)) \<and>
   (List a prefix pages = Some ((ks, Some e), calls) \<longrightarrow> ks = None)"
proof -
  have "ks = None" if "List a prefix pages = Some ((ks, Some e), calls)"
  proof -
    from that obtain calls' where "List_loop a prefix None [] pages = Some ((ks, Some e), calls')"
      by (auto simp: List_def split: option.splits)
    then show ?thesis by (rule List_loop_error_nil)
  qed
  then show ?thesis
    using List_page_error [of pre a prefix err rest] by blast
qed

theorem List_page_failure_witness:
  "NotDone (NextMarker \<lparr>BlobItems = [''p/x'', ''p/d/1''], NextMarker = Some ''m1''\<rparr>) \<and>
   List backend0 ''p/'' failingPages =
     Some ((None, Some (StorageError ''ServerBusy'')),
           [PermitAcquire,
            CallList (container backend0) None ''p/'' MaxListResults,
            CallList (container backend0) (Some ''m1'') ''p/'' MaxListResults,
            PermitRelease]) \<and>
   map_option fst (List backend0 ''p/'' failingPages) = Some (None, Some (StorageError ''ServerBusy''))"
proof -
  have run:
    "List backend0 ''p/'' failingPages =
       Some ((None, Some (StorageError ''ServerBusy'')),
             [PermitAcquire,
              CallList (container backend0) None ''p/'' MaxListResults,
              CallList (container backend0) (Some ''m1'') ''p/'' MaxListResults,
              PermitRelease])"
    by (simp add: List_def failingPages_def NotDone_def)
  have more: "NotDone (NextMarker \<lparr>BlobItems = [''p/x'', ''p/d/1''], NextMarker = Some ''m1''\<rparr>)"
    by (simp add: NotDone_def)
  have pages: "failingPages =
      map Inr [\<lparr>BlobItems = [''p/x'', ''p/d/1''], NextMarker = Some ''m1''\<rparr>] @
        Inl (StorageError ''ServerBusy'') # []"
    by (simp add: failingPages_def)
  from List_page_failure [of "[\<lparr>BlobItems = [''p/x'', ''p/d/1''], NextMarker = Some ''m1''\<rparr>]"
      backend0 "''p/''" "StorageError ''ServerBusy''" "[]"] more
  have "map_option fst (List backend0 ''p/'' failingPages) =
      Some (None, Some (StorageError ''ServerBusy''))"
    unfolding pages by simp
  with run more show ?thesis by blast
qed

subsection \<open>Remote failures other than not-found\<close>




subsection \<open>Construction: where the configuration values come from\<close>

lemma resolveConfig_eq:
  "resolveConfig s conf =
     (if envThenConf s conf ''AZURE_BLOB_CONTAINER'' ''container'' = []
      then Inl (must_be_set ''container'')
      else if envThenConf s conf ''AZURE_ACCOUNT_NAME'' ''accountName'' = []
      then Inl (must_be_set ''accountName'')
      else if envThenConf s conf ''AZURE_ACCOUNT_KEY'' ''accountKey'' = []
      then Inl (must_be_set ''accountKey'')
      else Inr \<lparr>name = envThenConf s conf ''AZURE_BLOB_CONTAINER'' ''container'',
                accountName = envThenConf s conf ''AZURE_ACCOUNT_NAME'' ''accountName'',
                accountKey = envThenConf s conf ''AZURE_ACCOUNT_KEY'' ''accountKey'',
                environmentName =
                  (if envThenConf s conf ''AZURE_ENVIRONMENT'' ''environment'' = []
                   then ''AzurePublicCloud''
                   else envThenConf s conf ''AZURE_ENVIRONMENT'' ''environment''),
                environmentURL = envThenConf s conf ''AZURE_ARM_ENDPOINT'' ''arm_endpoint''\<rparr>)"
  by (simp add: resolveConfig_def envThenConf_def Let_def)

lemma resolveConfig_Inr:
  assumes "resolveConfig s conf = Inr c"
  shows "name c = envThenConf s conf ''AZURE_BLOB_CONTAINER'' ''container'' \<and>
     accountName c = envThenConf s conf ''AZURE_ACCOUNT_NAME'' ''accountName'' \<and>
     accountKey c = envThenConf s conf ''AZURE_ACCOUNT_KEY'' ''accountKey'' \<and>
     environmentName c =
       (if envThenConf s conf ''AZURE_ENVIRONMENT'' ''environment'' = [] then ''AzurePublicCloud''
        else envThenConf s conf ''AZURE_ENVIRONMENT'' ''environment'') \<and>
     environmentURL c = envThenConf s conf ''AZURE_ARM_ENDPOINT'' ''arm_endpoint''"
proof -
  from assms have
    "c = \<lparr>name = envThenConf s conf ''AZURE_BLOB_CONTAINER'' ''container'',
          accountName = envThenConf s conf ''AZURE_ACCOUNT_NAME'' ''accountName'',
          accountKey = envThenConf s conf ''AZURE_ACCOUNT_KEY'' ''accountKey'',
          environmentName =
            (if envThenConf s conf ''AZURE_ENVIRONMENT'' ''environment'' = []
             then ''AzurePublicCloud''
             else envThenConf s conf ''AZURE_ENVIRONMENT'' ''environment''),
          environmentURL = envThenConf s conf ''AZURE_ARM_ENDPOINT'' ''arm_endpoint''\<rparr>"
    by (subst (asm) resolveConfig_eq) (simp split: if_splits)
  then show ?thesis by simp
qed

lemma resolveConfig_succeeds:
  "(\<exists>c. resolveConfig s conf = Inr c) \<longleftrightarrow>
     envThenConf s conf ''AZURE_BLOB_CONTAINER'' ''container'' \<noteq> [] \<and>
     envThenConf s conf ''AZURE_ACCOUNT_NAME'' ''accountName'' \<noteq> [] \<and>
     envThenConf s conf ''AZURE_ACCOUNT_KEY'' ''accountKey'' \<noteq> []"
  by (subst resolveConfig_eq) simp

lemma resolveConfig_fails:
  "envThenConf s conf ''AZURE_BLOB_CONTAINER'' ''container'' = [] \<or>
   envThenConf s conf ''AZURE_ACCOUNT_NAME'' ''accountName'' = [] \<or>
   envThenConf s conf ''AZURE_ACCOUNT_KEY'' ''accountKey'' = [] \<Longrightarrow>
     \<exists>k \<in> {''container'', ''accountName'', ''accountKey''}.
        resolveConfig s conf = Inl (must_be_set k)"
  by (subst resolveConfig_eq) auto

text \<open>
  C5, as the code has it. Each of the five values is read from its environment variable
  first and from the configuration map only when the variable is empty or unset; the
  environment name falls back further to \<open>AzurePublicCloud\<close>. The values are resolved
  exactly when container name, account name and account key are each non-empty in one of
  the two sources; when one of them is empty in both, construction fails with the error
  that names it, before any call to the blob service.
\<close>

theorem config_resolution_order:
  "(resolveConfig s conf = Inr c \<longrightarrow>
      name c = envThenConf s conf ''AZURE_BLOB_CONTAINER'' ''container'' \<and>
      accountName c = envThenConf s conf ''AZURE_ACCOUNT_NAME'' ''accountName'' \<and>
      accountKey c = envThenConf s conf ''AZURE_ACCOUNT_KEY'' ''accountKey'' \<and>
      environmentName c =
        (if envThenConf s conf ''AZURE_ENVIRONMENT'' ''environment'' = [] then ''AzurePublicCloud''
         else envThenConf s conf ''AZURE_ENVIRONMENT'' ''environment'') \<and>
      environmentURL c = envThenConf s conf ''AZURE_ARM_ENDPOINT'' ''arm_endpoint'') \<and>
   ((\<exists>c. resolveConfig s conf = Inr c) \<longleftrightarrow>
      envThenConf s conf ''AZURE_BLOB_CONTAINER'' ''container'' \<noteq> [] \<and>
      envThenConf s conf ''AZURE_ACCOUNT_NAME'' ''accountName'' \<noteq> [] \<and>
      envThenConf s conf ''AZURE_ACCOUNT_KEY'' ''accountKey'' \<noteq> []) \<and>
   (envThenConf s conf ''AZURE_BLOB_CONTAINER'' ''container'' = [] \<or>
    envThenConf s conf ''AZURE_ACCOUNT_NAME'' ''accountName'' = [] \<or>
    envThenConf s conf ''AZURE_ACCOUNT_KEY'' ''accountKey'' = []
      \<longrightarrow> (\<exists>k \<in> {''container'', ''accountName'', ''accountKey''}.
             NewAzureBackend s conf = ((None, Some (must_be_set k)), [])))"
proof -
  have fails: "\<exists>k \<in> {''container'', ''accountName'', ''accountKey''}.
      NewAzureBackend s conf = ((None, Some (must_be_set k)), [])"
    if "envThenConf s conf ''AZURE_BLOB_CONTAINER'' ''container'' = [] \<or>
        envThenConf s conf ''AZURE_ACCOUNT_NAME'' ''accountName'' = [] \<or>
        envThenConf s conf ''AZURE_ACCOUNT_KEY'' ''accountKey'' = []"
  proof -
    from resolveConfig_fails [OF that] obtain k
      where k: "k \<in> {''container'', ''accountName'', ''accountKey''}"
        and "resolveConfig s conf = Inl (must_be_set k)"
      by blast
    then have "NewAzureBackend s conf = ((None, Some (must_be_set k)), [])"
      by (simp add: NewAzureBackend_def)
    with k show ?thesis by blast
  qed
  from resolveConfig_Inr [of s conf c] resolveConfig_succeeds [of s conf] fails
  show ?thesis by blast
qed

theorem config_resolution_order_witness:
  "resolveConfig sysEnv conf0 =
     Inr \<lparr>name = ''from-env'', accountName = ''acct'', accountKey = ''a2V5'',
          environmentName = ''AzurePublicCloud'', environmentURL = ''''\<rparr> \<and>
   envThenConf sysEnv conf0 ''AZURE_BLOB_CONTAINER'' ''container'' = ''from-env'' \<and>
   envThenConf sysEnv conf0 ''AZURE_ACCOUNT_NAME'' ''accountName'' = ''acct'' \<and>
   envThenConf sys0 Map.empty ''AZURE_BLOB_CONTAINER'' ''container'' = [] \<and>
   (\<exists>k \<in> {''container'', ''accountName'', ''accountKey''}.
      NewAzureBackend sys0 Map.empty = ((None, Some (must_be_set k)), []))"
proof -
  have r: "resolveConfig sysEnv conf0 =
     Inr \<lparr>name = ''from-env'', accountName = ''acct'', accountKey = ''a2V5'',
          environmentName = ''AzurePublicCloud'', environmentURL = ''''\<rparr>"
    by (simp add: resolveConfig_def sysEnv_def sys0_def conf0_def conf_get_def)
  have e0: "envThenConf sys0 Map.empty ''AZURE_BLOB_CONTAINER'' ''container'' = []"
    by (simp add: envThenConf_def sys0_def conf_get_def)
  from config_resolution_order [of sysEnv conf0
      "\<lparr>name = ''from-env'', accountName = ''acct'', accountKey = ''a2V5'',
        environmentName = ''AzurePublicCloud'', environmentURL = ''''\<rparr>"] r
  have "envThenConf sysEnv conf0 ''AZURE_BLOB_CONTAINER'' ''container'' = ''from-env'' \<and>
        envThenConf sysEnv conf0 ''AZURE_ACCOUNT_NAME'' ''accountName'' = ''acct''"
    by simp
  moreover from config_resolution_order [of sys0 Map.empty] e0
  have "\<exists>k \<in> {''container'', ''accountName'', ''accountKey''}.
      NewAzureBackend sys0 Map.empty = ((None, Some (must_be_set k)), [])"
    by blast
  ultimately show ?thesis using r e0 by blast
qed

theorem config_first_counterexample:
  "conf0 ''container'' = Some ''vault'' \<and>
   Getenv sysEnv ''AZURE_BLOB_CONTAINER'' = ''from-env'' \<and>
   resolveConfig sysEnv conf0 =
     Inr \<lparr>name = ''from-env'', accountName = ''acct'', accountKey = ''a2V5'',
          environmentName = ''AzurePublicCloud'', environmentURL = ''''\<rparr> \<and>
   NewAzureBackend sysEnv conf0 =
     ((Some \<lparr>container = ''https://acct.blob.core.windows.net/from-env'', permitPool = 0\<rparr>, None),
      [CallGetProperties ''https://acct.blob.core.windows.net/from-env''])"
proof -
  have r: "resolveConfig sysEnv conf0 =
     Inr \<lparr>name = ''from-env'', accountName = ''acct'', accountKey = ''a2V5'',
          environmentName = ''AzurePublicCloud'', environmentURL = ''''\<rparr>"
    by (simp add: resolveConfig_def sysEnv_def sys0_def conf0_def conf_get_def)
  have "NewAzureBackend sysEnv conf0 =
     ((Some \<lparr>container = ''https://acct.blob.core.windows.net/from-env'', permitPool = 0\<rparr>, None),
      [CallGetProperties ''https://acct.blob.core.windows.net/from-env''])"
    unfolding NewAzureBackend_def r
    by (simp add: lookupEnvironment_def probeContainer_def parseMaxParallel_def
        sysEnv_def sys0_def conf0_def)
  with r show ?thesis by (simp add: conf0_def sysEnv_def)
qed

subsection \<open>Construction: an invalid max_parallel\<close>








subsection \<open>Construction: a probe that fails\<close>

lemma probeContainer_structured:
  "GetProperties s URL = Some err \<Longrightarrow> errors_As err = Some code \<Longrightarrow>
   code \<noteq> ServiceCodeContainerNotFound \<Longrightarrow>
     probeContainer s n URL =
       (Some (Wrapf (Sprintf ''failed to get properties for container %q: {{err}}'' [n]) err),
        [CallGetProperties URL])"
  by (simp add: probeContainer_def)

lemma probeContainer_unstructured:
  "GetProperties s URL = Some err \<Longrightarrow> errors_As err = None \<Longrightarrow>
     probeContainer s n URL = (None, [CallGetProperties URL])"
  by (simp add: probeContainer_def)

text \<open>
  C7. A probe that fails with a service code other than container-not-found ends
  construction with an error. A probe that fails with an error that is no storage error
  (a timeout, a refused connection) does not: no branch handles it, and construction
  goes on to return a backend. Here the probe times out and a backend is returned.
\<close>

theorem probe_transport_failure_ignored:
  "GetProperties sysTimeout ''https://acct.blob.core.windows.net/vault'' =
     Some (PlainError ''context deadline exceeded'') \<and>
   errors_As (PlainError ''context deadline exceeded'') = None \<and>
   NewAzureBackend sysTimeout conf0 =
     ((Some \<lparr>container = ''https://acct.blob.core.windows.net/vault'', permitPool = 0\<rparr>, None),
      [CallGetProperties ''https://acct.blob.core.windows.net/vault''])"
proof -
  have r: "resolveConfig sysTimeout conf0 =
     Inr \<lparr>name = ''vault'', accountName = ''acct'', accountKey = ''a2V5'',
          environmentName = ''AzurePublicCloud'', environmentURL = ''''\<rparr>"
    by (simp add: resolveConfig_def sysTimeout_def sys0_def conf0_def conf_get_def)
  have p: "parseMaxParallel conf0 = Inr 0"
    by (simp add: parseMaxParallel_def conf0_def)
  have "NewAzureBackend sysTimeout conf0 =
     ((Some \<lparr>container = ''https://acct.blob.core.windows.net/vault'', permitPool = 0\<rparr>, None),
      [CallGetProperties ''https://acct.blob.core.windows.net/vault''])"
    unfolding NewAzureBackend_def r p
    by (simp add: lookupEnvironment_def probeContainer_def sysTimeout_def sys0_def)
  then show ?thesis by (simp add: sysTimeout_def sys0_def)
qed

end
